theory Spec2Isabelle
  imports Complex_Main "HOL-Library.Word"
begin

section \<open>Constants of \<^verbatim>\<open>snake_game.py\<close>\<close>

definition MAX_PLAYERS :: nat where "MAX_PLAYERS = 10"
definition BOMB_RANGE :: int where "BOMB_RANGE = 25"
definition BOMB_DAMAGE :: nat where "BOMB_DAMAGE = 4"
definition BOMB_SPEED :: nat where "BOMB_SPEED = 3"
definition MAX_MESSAGE_SIZE :: nat where "MAX_MESSAGE_SIZE = 65536"
definition MAX_MESSAGES_PER_SECOND :: nat where "MAX_MESSAGES_PER_SECOND = 30"

text \<open>Exceptions of the Python code that the model keeps as values.\<close>

datatype py_error =
    OverflowError
  | ValueError
  | IndexError
  | AttributeError string

section \<open>Wire codec: \<^verbatim>\<open>NetworkProtocol\<close>\<close>

type_synonym byte = "8 word"
type_synonym bytes = "byte list"


text \<open>\<^verbatim>\<open>int.from_bytes(bs, 'big')\<close>.\<close>

definition from_bytes_big :: "bytes \<Rightarrow> nat" where
  "from_bytes_big bs = foldl (\<lambda>acc b. acc * 256 + unat b) 0 bs"


definition decode_from_buffer :: "(bytes \<Rightarrow> 'm option) \<Rightarrow> bytes \<Rightarrow> 'm option \<times> bytes" where
  "decode_from_buffer loads buffer =
     (if length buffer < 4 then (None, buffer)
      else
        let len = from_bytes_big (take 4 buffer) in
        if len > MAX_MESSAGE_SIZE then (None, drop 4 buffer)
        else if length buffer < 4 + len then (None, buffer)
        else
          (case loads (take len (drop 4 buffer)) of
             Some message \<Rightarrow> (Some message, drop (4 + len) buffer)
           | None \<Rightarrow> (None, drop (4 + len) buffer)))"


definition raw_loads :: "bytes \<Rightarrow> bytes option" where
  "raw_loads b = Some b"




section \<open>Game data: \<^verbatim>\<open>Direction\<close>, \<^verbatim>\<open>GameState\<close>, \<^verbatim>\<open>GameData\<close>\<close>

datatype Direction = UP | DOWN | LEFT | RIGHT

datatype GameState = WAITING | COUNTDOWN | RUNNING | FINISHED

text \<open>A grid cell \<^verbatim>\<open>[x, y]\<close>.\<close>

type_synonym cell = "int \<times> int"

text \<open>The dictionary \<^verbatim>\<open>snake_data\<close> built by \<^verbatim>\<open>_add_player_to_game\<close>; its key
  \<^verbatim>\<open>'player_id'\<close> holds the player number.\<close>

record snake =
  player_id :: nat
  player_name :: string
  body :: "cell list"
  direction :: Direction
  alive :: bool
  has_weapon :: bool
  has_ghost :: bool
  is_invisible :: bool
  invisible_until :: real
  score :: int
  color :: nat

record bomb =
  bomb_x :: int
  bomb_y :: int
  bomb_direction :: Direction
  owner_id :: nat
  remaining_range :: int

record explosion =
  exp_x :: int
  exp_y :: int
  radius :: int
  ttl :: int

text \<open>\<^verbatim>\<open>GameData\<close>. The dictionary \<^verbatim>\<open>snakes\<close> is an association list in insertion order,
  the order in which Python iterates over it; \<^verbatim>\<open>mode\<close> is the string the server was
  started with, compared against \<^verbatim>\<open>GameMode.KURVE.value\<close>.\<close>

record GameData =
  state :: GameState
  mode :: string
  speed :: string
  walls_enabled :: bool
  width :: int
  height :: int
  snakes :: "(string \<times> snake) list"
  foods :: "cell list"
  weapons :: "cell list"
  ghost_pickups :: "cell list"
  bombs :: "bomb list"
  explosions :: "explosion list"
  host_id :: string
  next_player_id :: nat
  tick :: int
  last_weapon_spawn :: real
  next_weapon_spawn :: real
  winner :: string
  countdown :: int
  countdown_start :: real

text \<open>The defaults of the dataclass: \<^verbatim>\<open>GameData()\<close>.\<close>

definition GameData_default :: GameData where
  "GameData_default =
     \<lparr>state = WAITING, mode = ''classic'', speed = ''normal'', walls_enabled = True,
      width = 80, height = 24, snakes = [], foods = [], weapons = [], ghost_pickups = [],
      bombs = [], explosions = [], host_id = [], next_player_id = 0, tick = 0,
      last_weapon_spawn = 0, next_weapon_spawn = 0, winner = [], countdown = 0,
      countdown_start = 0\<rparr>"

subsection \<open>Dictionaries, exceptions and the random source\<close>

text \<open>\<^verbatim>\<open>d[k] = v\<close> on an insertion-ordered dictionary: an existing key keeps its place.\<close>

fun dict_set :: "'k \<Rightarrow> 'v \<Rightarrow> ('k \<times> 'v) list \<Rightarrow> ('k \<times> 'v) list" where
  "dict_set k v [] = [(k, v)]"
| "dict_set k v ((k', v') # d) = (if k' = k then (k, v) # d else (k', v') # dict_set k v d)"

text \<open>In-place mutation of the snake dictionary stored under \<open>pid\<close>.\<close>

definition modify_snake :: "string \<Rightarrow> (snake \<Rightarrow> snake) \<Rightarrow> GameData \<Rightarrow> GameData" where
  "modify_snake pid f game =
     game\<lparr>snakes := map (\<lambda>(k, s). if k = pid then (k, f s) else (k, s)) (snakes game)\<rparr>"

text \<open>
  A call that may raise returns the exception, if any, next to the state reached when it
  was raised: Python mutates the objects in place, so what was done before the exception
  stays done.
\<close>

type_synonym 's outcome = "py_error option \<times> 's"

definition then_do :: "'s outcome \<Rightarrow> ('s \<Rightarrow> 't outcome) \<Rightarrow> ('s \<Rightarrow> 't) \<Rightarrow> 't outcome" where
  "then_do m f on_raise =
     (case m of (None, s) \<Rightarrow> f s | (Some e, s) \<Rightarrow> (Some e, on_raise s))"

fun for_each :: "'k list \<Rightarrow> ('k \<Rightarrow> 's \<Rightarrow> 's outcome) \<Rightarrow> 's \<Rightarrow> 's outcome" where
  "for_each [] f s = (None, s)"
| "for_each (k # ks) f s = then_do (f k s) (for_each ks f) (\<lambda>s. s)"

text \<open>
  The module \<^verbatim>\<open>random\<close> is a stream of natural numbers, read from the front.
  \<^verbatim>\<open>randint(a, b)\<close> raises \<^verbatim>\<open>ValueError\<close> on an empty range; \<^verbatim>\<open>random()\<close> has 53
  random bits; \<^verbatim>\<open>uniform(a, b)\<close> is \<^verbatim>\<open>a + (b - a) * random()\<close>.
\<close>

type_synonym rng = "nat \<Rightarrow> nat"

definition rng_next :: "rng \<Rightarrow> rng" where
  "rng_next r = (\<lambda>i. r (Suc i))"

definition randint :: "int \<Rightarrow> int \<Rightarrow> rng \<Rightarrow> py_error + (int \<times> rng)" where
  "randint a b r =
     (if b < a then Inl ValueError
      else Inr (a + int (r 0 mod nat (b - a + 1)), rng_next r))"

definition random_choice :: "'a list \<Rightarrow> rng \<Rightarrow> py_error + ('a \<times> rng)" where
  "random_choice xs r =
     (if xs = [] then Inl IndexError else Inr (xs ! (r 0 mod length xs), rng_next r))"

definition random_random :: "rng \<Rightarrow> real \<times> rng" where
  "random_random r = (real (r 0 mod 2 ^ 53) / 2 ^ 53, rng_next r)"

definition uniform :: "real \<Rightarrow> real \<Rightarrow> rng \<Rightarrow> real \<times> rng" where
  "uniform a b r = (case random_random r of (u, r') \<Rightarrow> (a + (b - a) * u, r'))"

section \<open>Simulation engine: \<^verbatim>\<open>SnakeGameLogic\<close>\<close>

subsection \<open>Spawning\<close>

definition is_position_occupied :: "GameData \<Rightarrow> int \<Rightarrow> int \<Rightarrow> bool" where
  "is_position_occupied game x y =
     (list_ex (\<lambda>(pid, snake_data). (x, y) \<in> set (body snake_data)) (snakes game)
      \<or> (x, y) \<in> set (foods game)
      \<or> (x, y) \<in> set (weapons game)
      \<or> (x, y) \<in> set (ghost_pickups game))"

text \<open>
  The retry loop shared by \<^verbatim>\<open>_spawn_food\<close>, \<^verbatim>\<open>_spawn_weapon\<close> and \<^verbatim>\<open>_spawn_ghost\<close>, which
  differ only in the list they append to (\<open>put\<close>): \<open>attempts\<close> counts down, and the first
  free cell drawn is taken.
\<close>

fun spawn_attempts ::
  "(cell \<Rightarrow> GameData \<Rightarrow> GameData) \<Rightarrow> nat \<Rightarrow> GameData \<times> rng \<Rightarrow> (GameData \<times> rng) outcome"
where
  "spawn_attempts put 0 (game, r) = (None, (game, r))"
| "spawn_attempts put (Suc attempts) (game, r) =
     (case randint 2 (width game - 2) r of
        Inl e \<Rightarrow> (Some e, (game, r))
      | Inr (x, r1) \<Rightarrow>
          (case randint 2 (height game - 2) r1 of
             Inl e \<Rightarrow> (Some e, (game, r1))
           | Inr (y, r2) \<Rightarrow>
               if \<not> is_position_occupied game x y then (None, (put (x, y) game, r2))
               else spawn_attempts put attempts (game, r2)))"

definition spawn_food :: "GameData \<times> rng \<Rightarrow> (GameData \<times> rng) outcome" where
  "spawn_food = spawn_attempts (\<lambda>c game. game\<lparr>foods := foods game @ [c]\<rparr>) 100"

definition spawn_weapon :: "GameData \<times> rng \<Rightarrow> (GameData \<times> rng) outcome" where
  "spawn_weapon = spawn_attempts (\<lambda>c game. game\<lparr>weapons := weapons game @ [c]\<rparr>) 100"

definition spawn_ghost :: "GameData \<times> rng \<Rightarrow> (GameData \<times> rng) outcome" where
  "spawn_ghost = spawn_attempts (\<lambda>c game. game\<lparr>ghost_pickups := ghost_pickups game @ [c]\<rparr>) 100"

subsection \<open>\<^verbatim>\<open>_add_player_to_game\<close>\<close>

text \<open>The area around a candidate start: offsets \<open>-3..3\<close> in x and \<open>-1..1\<close> in y.\<close>

definition position_clear :: "GameData \<Rightarrow> int \<Rightarrow> int \<Rightarrow> bool" where
  "position_clear game start_x start_y =
     (\<forall>check_offset \<in> set [-3, -2, -1, 0, 1, 2, 3]. \<forall>dy \<in> set [-1, 0, 1].
        \<not> is_position_occupied game (start_x + check_offset) (start_y + dy))"

fun find_start :: "nat \<Rightarrow> GameData \<Rightarrow> cell \<times> rng \<Rightarrow> (cell \<times> rng) outcome" where
  "find_start 0 game (start, r) = (None, (start, r))"
| "find_start (Suc n) game (start, r) =
     (case randint 5 (width game - 5) r of
        Inl e \<Rightarrow> (Some e, (start, r))
      | Inr (start_x, r1) \<Rightarrow>
          (case randint 5 (height game - 5) r1 of
             Inl e \<Rightarrow> (Some e, ((start_x, snd start), r1))
           | Inr (start_y, r2) \<Rightarrow>
               if position_clear game start_x start_y then (None, ((start_x, start_y), r2))
               else find_start n game ((start_x, start_y), r2)))"

definition initial_body :: "Direction \<Rightarrow> cell \<Rightarrow> cell list" where
  "initial_body d start =
     (case start of (start_x, start_y) \<Rightarrow>
        (case d of
           RIGHT \<Rightarrow> [(start_x, start_y), (start_x - 1, start_y), (start_x - 2, start_y)]
         | LEFT \<Rightarrow> [(start_x, start_y), (start_x + 1, start_y), (start_x + 2, start_y)]
         | DOWN \<Rightarrow> [(start_x, start_y), (start_x, start_y - 1), (start_x, start_y - 2)]
         | UP \<Rightarrow> [(start_x, start_y), (start_x, start_y + 1), (start_x, start_y + 2)]))"

definition add_player_to_game ::
  "string \<Rightarrow> string \<Rightarrow> GameData \<times> rng \<Rightarrow> (GameData \<times> rng) outcome"
where
  "add_player_to_game pid pname = (\<lambda>(game0, r0).
     let player_num = next_player_id game0;
         game = game0\<lparr>next_player_id := next_player_id game0 + 1\<rparr>
     in case random_choice [UP, DOWN, LEFT, RIGHT] r0 of
          Inl e \<Rightarrow> (Some e, (game, r0))
        | Inr (d, r1) \<Rightarrow>
            (case find_start 100 game ((0, 0), r1) of
               (Some e, (start, r2)) \<Rightarrow> (Some e, (game, r2))
             | (None, (start, r2)) \<Rightarrow>
                 let snake_data =
                       \<lparr>player_id = player_num, player_name = pname,
                        body = initial_body d start, direction = d, alive = True,
                        has_weapon = False, has_ghost = False, is_invisible = False,
                        invisible_until = 0, score = 0, color = player_num\<rparr>
                 in spawn_food (game\<lparr>snakes := dict_set pid snake_data (snakes game)\<rparr>, r2)))"

subsection \<open>\<^verbatim>\<open>_move_snake\<close>\<close>

definition step_cell :: "Direction \<Rightarrow> cell \<Rightarrow> cell" where
  "step_cell d c =
     (case c of (x, y) \<Rightarrow>
        (case d of
           UP \<Rightarrow> (x, y - 1)
         | DOWN \<Rightarrow> (x, y + 1)
         | LEFT \<Rightarrow> (x - 1, y)
         | RIGHT \<Rightarrow> (x + 1, y)))"

text \<open>The wrap-around used when walls are disabled, for snake heads and for bombs.\<close>

definition wrap_cell :: "GameData \<Rightarrow> cell \<Rightarrow> cell" where
  "wrap_cell game c =
     (case c of (x, y) \<Rightarrow>
        ((if x \<le> 0 then width game - 2 else if x \<ge> width game - 1 then 1 else x),
         (if y \<le> 0 then height game - 2 else if y \<ge> height game - 1 then 1 else y)))"

text \<open>
  \<^verbatim>\<open>_move_snake(game, snake)\<close>, where \<^verbatim>\<open>snake\<close> is the dictionary stored in
  \<^verbatim>\<open>game.snakes\<close> under \<open>pid\<close> (the callers iterate over \<^verbatim>\<open>game.snakes.items()\<close>, so the
  key is always present). \<^verbatim>\<open>snake['body'][0]\<close> raises \<^verbatim>\<open>IndexError\<close> on an empty body.
\<close>

definition move_snake :: "string \<Rightarrow> GameData \<times> rng \<Rightarrow> (GameData \<times> rng) outcome" where
  "move_snake pid = (\<lambda>(game, r).
     case map_of (snakes game) pid of
       None \<Rightarrow> (None, (game, r))
     | Some snake \<Rightarrow>
         (case body snake of
            [] \<Rightarrow> (Some IndexError, (game, r))
          | head # _ \<Rightarrow>
              let stepped = step_cell (direction snake) head;
                  new_head = (if \<not> walls_enabled game then wrap_cell game stepped else stepped);
                  game1 = modify_snake pid (\<lambda>s. s\<lparr>body := new_head # body s\<rparr>) game;
                  ate_food = (new_head \<in> set (foods game1))
              in then_do
                   (if ate_food
                    then spawn_food
                           ((modify_snake pid (\<lambda>s. s\<lparr>score := score s + 10\<rparr>) game1)
                              \<lparr>foods := remove1 new_head (foods game1)\<rparr>, r)
                    else (None, (game1, r)))
                   (\<lambda>(game2, r2).
                      let game3 =
                            (if new_head \<in> set (weapons game2)
                             then (modify_snake pid (\<lambda>s. s\<lparr>has_weapon := True\<rparr>) game2)
                                    \<lparr>weapons := remove1 new_head (weapons game2)\<rparr>
                             else game2);
                          game4 =
                            (if new_head \<in> set (ghost_pickups game3)
                             then (modify_snake pid (\<lambda>s. s\<lparr>has_ghost := True\<rparr>) game3)
                                    \<lparr>ghost_pickups := remove1 new_head (ghost_pickups game3)\<rparr>
                             else game3);
                          game5 =
                            (if mode game4 = ''kurve'' then game4
                             else if \<not> ate_food
                               then modify_snake pid (\<lambda>s. s\<lparr>body := butlast (body s)\<rparr>) game4
                               else game4)
                      in (None, (game5, r2)))
                   (\<lambda>s. s)))"

subsection \<open>\<^verbatim>\<open>_fire_weapon\<close> and \<^verbatim>\<open>_activate_ghost\<close>\<close>

definition GHOST_DURATION :: real where "GHOST_DURATION = 5"

definition fire_weapon :: "string \<Rightarrow> GameData \<Rightarrow> GameData outcome" where
  "fire_weapon pid game =
     (case map_of (snakes game) pid of
        None \<Rightarrow> (None, game)
      | Some snake \<Rightarrow>
          let game1 = modify_snake pid (\<lambda>s. s\<lparr>has_weapon := False\<rparr>) game
          in case body snake of
               [] \<Rightarrow> (Some IndexError, game1)
             | head # _ \<Rightarrow>
                 (case step_cell (direction snake) head of (start_x, start_y) \<Rightarrow>
                    (None, game1\<lparr>bombs := bombs game1 @
                       [\<lparr>bomb_x = start_x, bomb_y = start_y, bomb_direction = direction snake,
                         owner_id = player_id snake, remaining_range = BOMB_RANGE\<rparr>]\<rparr>)))"

definition activate_ghost :: "string \<Rightarrow> real \<Rightarrow> GameData \<Rightarrow> GameData" where
  "activate_ghost pid current_time game =
     modify_snake pid
       (\<lambda>s. s\<lparr>has_ghost := False, is_invisible := True,
              invisible_until := current_time + GHOST_DURATION\<rparr>) game"

subsection \<open>\<^verbatim>\<open>_update_bombs\<close>\<close>

definition create_explosion :: "int \<Rightarrow> int \<Rightarrow> GameData \<Rightarrow> GameData" where
  "create_explosion x y game =
     game\<lparr>explosions := explosions game @ [\<lparr>exp_x = x, exp_y = y, radius = 3, ttl = 5\<rparr>]\<rparr>"

text \<open>The index of the first segment at the bomb's cell (\<^verbatim>\<open>hit_index\<close>), if there is one.\<close>

fun hit_index :: "cell \<Rightarrow> cell list \<Rightarrow> nat option" where
  "hit_index c [] = None"
| "hit_index c (segment # segments) =
     (if c = segment then Some 0 else map_option Suc (hit_index c segments))"

text \<open>\<^verbatim>\<open>body.pop(i)\<close> for an index in range.\<close>

definition pop_at :: "nat \<Rightarrow> 'a list \<Rightarrow> 'a list" where
  "pop_at i xs = take i xs @ drop (Suc i) xs"

text \<open>The damage loop: at most \<open>budget\<close> segments are popped at \<open>hit\<close>, while the index is
  in range and more than one segment is left.\<close>

fun remove_segments :: "nat \<Rightarrow> nat \<Rightarrow> cell list \<Rightarrow> cell list" where
  "remove_segments 0 hit segments = segments"
| "remove_segments (Suc budget) hit segments =
     (if hit < length segments \<and> length segments > 1
      then remove_segments budget hit (pop_at hit segments)
      else segments)"

definition damage_snake :: "nat \<Rightarrow> snake \<Rightarrow> snake" where
  "damage_snake hit s =
     (let s1 = s\<lparr>body := remove_segments BOMB_DAMAGE hit (body s)\<rparr>
      in if length (body s1) < 2 then s1\<lparr>alive := False\<rparr> else s1)"

text \<open>The loop over \<^verbatim>\<open>game.snakes.items()\<close> for one bomb position: the first snake, in
  dictionary order, with a segment at the cell.\<close>

fun first_hit :: "cell \<Rightarrow> (string \<times> snake) list \<Rightarrow> (string \<times> nat) option" where
  "first_hit c [] = None"
| "first_hit c ((pid, s) # rest) =
     (case hit_index c (body s) of
        Some j \<Rightarrow> Some (pid, j)
      | None \<Rightarrow> first_hit c rest)"

definition bomb_out_of_bounds :: "GameData \<Rightarrow> bomb \<Rightarrow> bool" where
  "bomb_out_of_bounds game b =
     (bomb_x b \<le> 0 \<or> bomb_x b \<ge> width game - 1 \<or> bomb_y b \<le> 0 \<or> bomb_y b \<ge> height game - 1)"

text \<open>
  The inner loop \<^verbatim>\<open>for _ in range(BOMB_SPEED)\<close> for one bomb, with the number of
  iterations left. The result is the game, the bomb as mutated, and whether its index was
  put into \<^verbatim>\<open>bombs_to_remove\<close>.
\<close>

fun bomb_steps :: "nat \<Rightarrow> GameData \<Rightarrow> bomb \<Rightarrow> GameData \<times> bomb \<times> bool" where
  "bomb_steps 0 game b = (game, b, False)"
| "bomb_steps (Suc n) game b =
     (let moved = step_cell (bomb_direction b) (bomb_x b, bomb_y b);
          b1 = b\<lparr>bomb_x := fst moved, bomb_y := snd moved,
                 remaining_range := remaining_range b - 1\<rparr>
      in if walls_enabled game \<and> bomb_out_of_bounds game b1
         then (create_explosion (bomb_x b1) (bomb_y b1) game, b1, True)
         else
           let b2 = (if walls_enabled game then b1
                     else let w = wrap_cell game (bomb_x b1, bomb_y b1)
                          in b1\<lparr>bomb_x := fst w, bomb_y := snd w\<rparr>)
           in case first_hit (bomb_x b2, bomb_y b2) (snakes game) of
                Some (pid, j) \<Rightarrow>
                  (modify_snake pid (damage_snake j)
                     (create_explosion (bomb_x b2) (bomb_y b2) game), b2, True)
              | None \<Rightarrow>
                  if remaining_range b2 \<le> 0 then (game, b2, True)
                  else bomb_steps n game b2)"

text \<open>The outer loop over \<^verbatim>\<open>enumerate(game.bombs)\<close>: the bombs kept, in order, and the game.\<close>

fun bombs_loop :: "bomb list \<Rightarrow> GameData \<Rightarrow> bomb list \<times> GameData" where
  "bombs_loop [] game = ([], game)"
| "bombs_loop (b # bs) game =
     (case bomb_steps BOMB_SPEED game b of
        (game1, b', spent) \<Rightarrow>
          (case bombs_loop bs game1 of
             (kept, game2) \<Rightarrow> ((if spent then kept else b' # kept), game2)))"

definition update_bombs :: "GameData \<Rightarrow> GameData" where
  "update_bombs game =
     (case bombs_loop (bombs game) game of (kept, game1) \<Rightarrow> game1\<lparr>bombs := kept\<rparr>)"

subsection \<open>\<^verbatim>\<open>_update_explosions\<close>\<close>

definition update_explosions :: "GameData \<Rightarrow> GameData" where
  "update_explosions game =
     game\<lparr>explosions :=
       filter (\<lambda>e. \<not> ttl e \<le> 0) (map (\<lambda>e. e\<lparr>ttl := ttl e - 1\<rparr>) (explosions game))\<rparr>"

subsection \<open>\<^verbatim>\<open>_check_collisions\<close>\<close>

definition head_out_of_bounds :: "GameData \<Rightarrow> cell \<Rightarrow> bool" where
  "head_out_of_bounds game c =
     (case c of (head_x, head_y) \<Rightarrow>
        head_x \<le> 0 \<or> head_x \<ge> width game - 1 \<or> head_y \<le> 0 \<or> head_y \<ge> height game - 1)"

text \<open>The inner loop over the other snakes: a living, visible snake with a segment at the
  head's cell.\<close>

definition hits_other :: "GameData \<Rightarrow> string \<Rightarrow> cell \<Rightarrow> bool" where
  "hits_other game pid c =
     list_ex (\<lambda>(other_id, other_snake).
          other_id \<noteq> pid \<and> alive other_snake \<and> \<not> is_invisible other_snake
          \<and> c \<in> set (body other_snake))
       (snakes game)"

text \<open>One iteration of the outer loop, for the snake stored under \<open>pid\<close>.\<close>

definition check_collision :: "string \<Rightarrow> GameData \<Rightarrow> GameData outcome" where
  "check_collision pid game =
     (case map_of (snakes game) pid of
        None \<Rightarrow> (None, game)
      | Some snake \<Rightarrow>
          if \<not> alive snake then (None, game)
          else
            (case body snake of
               [] \<Rightarrow> (Some IndexError, game)
             | head # segments \<Rightarrow>
                 if walls_enabled game \<and> head_out_of_bounds game head
                 then (None, modify_snake pid (\<lambda>s. s\<lparr>alive := False\<rparr>) game)
                 else if head \<in> set segments
                 then (None, modify_snake pid (\<lambda>s. s\<lparr>alive := False\<rparr>) game)
                 else if hits_other game pid head
                 then (None, modify_snake pid (\<lambda>s. s\<lparr>alive := False\<rparr>) game)
                 else (None, game)))"

definition check_collisions :: "GameData \<Rightarrow> GameData outcome" where
  "check_collisions game = for_each (map fst (snakes game)) check_collision game"

subsection \<open>The tick: \<^verbatim>\<open>GameServer._update_game\<close>\<close>

definition WEAPON_SPAWN_MIN :: real where "WEAPON_SPAWN_MIN = 5"
definition WEAPON_SPAWN_MAX :: real where "WEAPON_SPAWN_MAX = 15"

definition expire_invisibility :: "real \<Rightarrow> GameData \<Rightarrow> GameData" where
  "expire_invisibility current_time game =
     game\<lparr>snakes :=
       map (\<lambda>(pid, s). (pid, if is_invisible s \<and> current_time \<ge> invisible_until s
                              then s\<lparr>is_invisible := False\<rparr> else s))
         (snakes game)\<rparr>"

text \<open>The body of the loop \<^verbatim>\<open>for player_id, snake in self.game.snakes.items()\<close>: dead
  snakes are skipped.\<close>

definition move_if_alive :: "string \<Rightarrow> GameData \<times> rng \<Rightarrow> (GameData \<times> rng) outcome" where
  "move_if_alive pid = (\<lambda>(g, r').
     case map_of (snakes g) pid of
       Some s \<Rightarrow> if \<not> alive s then (None, (g, r')) else move_snake pid (g, r')
     | None \<Rightarrow> (None, (g, r')))"

definition move_snakes :: "GameData \<times> rng \<Rightarrow> (GameData \<times> rng) outcome" where
  "move_snakes = (\<lambda>(game, r). for_each (map fst (snakes game)) move_if_alive (game, r))"

definition spawn_pickup :: "real \<Rightarrow> GameData \<times> rng \<Rightarrow> (GameData \<times> rng) outcome" where
  "spawn_pickup current_time = (\<lambda>(game, r).
     if current_time \<ge> next_weapon_spawn game
     then case random_random r of
            (u, r1) \<Rightarrow>
              then_do (if u < 0.5 then spawn_weapon (game, r1) else spawn_ghost (game, r1))
                (\<lambda>(game1, r2).
                   case uniform WEAPON_SPAWN_MIN WEAPON_SPAWN_MAX r2 of
                     (d, r3) \<Rightarrow> (None, (game1\<lparr>next_weapon_spawn := current_time + d\<rparr>, r3)))
                (\<lambda>s. s)
     else (None, (game, r)))"

definition check_winner :: "GameData \<Rightarrow> GameData" where
  "check_winner game =
     (let alive_count = length (filter (\<lambda>(pid, s). alive s) (snakes game))
      in if alive_count \<le> 1 \<and> length (snakes game) > 1
         then foldl (\<lambda>g (pid, s). if alive s then g\<lparr>winner := player_name s\<rparr> else g)
                (game\<lparr>state := FINISHED\<rparr>) (snakes game)
         else game)"

definition update_game :: "real \<Rightarrow> GameData \<times> rng \<Rightarrow> (GameData \<times> rng) outcome" where
  "update_game current_time = (\<lambda>(game, r).
     then_do (move_snakes (expire_invisibility current_time game, r))
       (\<lambda>(game1, r1).
          let game2 = update_explosions (update_bombs game1)
          in case check_collisions game2 of
               (Some e, game3) \<Rightarrow> (Some e, (game3, r1))
             | (None, game3) \<Rightarrow>
                 then_do (spawn_pickup current_time (game3, r1))
                   (\<lambda>(game4, r4).
                      let game5 = check_winner game4
                      in (None, (game5\<lparr>tick := tick game5 + 1\<rparr>, r4)))
                   (\<lambda>s. s))
       (\<lambda>s. s))"

subsection \<open>Predicates used in the statements\<close>

text \<open>Every snake of the game, living or dead, has at least one segment.\<close>

definition bodies_nonempty :: "GameData \<Rightarrow> bool" where
  "bodies_nonempty game = list_all (\<lambda>(pid, s). body s \<noteq> []) (snakes game)"

text \<open>
  Two games hold the same keys in the same order, and each snake of the second is related
  to the snake under the same key in the first. Every phase of the tick mutates the snake
  dictionaries in place, so it relates the game before and after in this way.
\<close>

definition snakes_rel :: "(string \<Rightarrow> snake \<Rightarrow> snake \<Rightarrow> bool) \<Rightarrow> GameData \<Rightarrow> GameData \<Rightarrow> bool" where
  "snakes_rel R game game' =
     list_all2 (\<lambda>(k, s) (k', s'). k' = k \<and> R k s s') (snakes game) (snakes game')"

text \<open>The cell \<^verbatim>\<open>new_head\<close> that \<^verbatim>\<open>_move_snake\<close> computes for a snake.\<close>

definition next_head :: "GameData \<Rightarrow> snake \<Rightarrow> cell" where
  "next_head game s =
     (let stepped = step_cell (direction s) (hd (body s))
      in if \<not> walls_enabled game then wrap_cell game stepped else stepped)"

text \<open>
  What one call of \<^verbatim>\<open>_move_snake\<close> does to the snake it moves, in game mode \<open>m\<close>, with new
  head \<open>h\<close>, when \<open>ate\<close> tells whether a food lay at \<open>h\<close>: the head is inserted, the tail
  is popped unless the mode is kurve or food was eaten, and the score rises by 10 on food.
\<close>

definition moved_to :: "string \<Rightarrow> cell \<Rightarrow> bool \<Rightarrow> snake \<Rightarrow> snake \<Rightarrow> bool" where
  "moved_to m h ate s s' =
     (body s' = (if m = ''kurve'' \<or> ate then h # body s else butlast (h # body s))
      \<and> score s' = score s + (if ate then 10 else 0)
      \<and> alive s' = alive s
      \<and> is_invisible s' = is_invisible s
      \<and> direction s' = direction s)"

text \<open>
  What the projectile and collision phases can do to a snake: they never touch the score or
  the cloak, never revive, never lengthen the body and never empty it.
\<close>

definition worn :: "snake \<Rightarrow> snake \<Rightarrow> bool" where
  "worn s s' =
     (score s' = score s \<and> is_invisible s' = is_invisible s \<and> (alive s' \<longrightarrow> alive s)
      \<and> length (body s') \<le> length (body s) \<and> (body s \<noteq> [] \<longrightarrow> body s' \<noteq> []))"

text \<open>Collision resolution changes nothing but \<^verbatim>\<open>alive\<close>, and only from true to false.\<close>

definition killed :: "snake \<Rightarrow> snake \<Rightarrow> bool" where
  "killed s s' = (s' = s \<or> (alive s \<and> s' = s\<lparr>alive := False\<rparr>))"


subsection \<open>A concrete game\<close>

text \<open>
  Two snakes, one bomb and one food. Ann, of six segments, heads right along the row
  \<open>y = 10\<close>; Bob, of three segments, heads up the column \<open>x = 9\<close> below her, and the food
  lies in the cell in front of his head. The bomb, fired by Bob, is in the cell below Ann's
  segment \<open>(9, 10)\<close> and flies up: its first step in the coming tick takes it onto that
  segment. The game is running, in the mode given, on the default 80 by 24 field with
  walls; the next pickup is due at time 100.
\<close>

definition demo_snake :: snake where
  "demo_snake =
     \<lparr>player_id = 0, player_name = ''Ann'',
      body = [(10, 10), (9, 10), (8, 10), (7, 10), (6, 10), (5, 10)], direction = RIGHT,
      alive = True, has_weapon = False, has_ghost = False, is_invisible = False,
      invisible_until = 0, score = 0, color = 0\<rparr>"

definition demo_gunner :: snake where
  "demo_gunner =
     \<lparr>player_id = 1, player_name = ''Bob'',
      body = [(9, 15), (9, 16), (9, 17)], direction = UP,
      alive = True, has_weapon = False, has_ghost = False, is_invisible = False,
      invisible_until = 0, score = 0, color = 1\<rparr>"

definition demo_bomb :: bomb where
  "demo_bomb =
     \<lparr>bomb_x = 9, bomb_y = 11, bomb_direction = UP, owner_id = 1, remaining_range = 22\<rparr>"

definition demo_game :: "string \<Rightarrow> GameData" where
  "demo_game m =
     GameData_default
       \<lparr>state := RUNNING, mode := m,
        snakes := [(''temp_A'', demo_snake), (''temp_B'', demo_gunner)], foods := [(9, 14)],
        bombs := [demo_bomb], next_player_id := 2, next_weapon_spawn := 100\<rparr>"

text \<open>The random source that always draws 0.\<close>

definition rng_zero :: rng where
  "rng_zero = (\<lambda>i. 0)"
section \<open>Properties of the wire codec\<close>






text \<open>
  \<^bold>\<open>C3.\<close> The reliable-channel decoder, for every buffer: with fewer than 4 bytes, or with a
  declared length within the maximum and fewer than \<open>4 + length\<close> bytes present, it returns
  no message and the buffer as it was; with a declared length above the maximum it returns
  no message and the buffer without its first 4 bytes; when the payload parses it returns the
  message and the bytes after the frame.
\<close>

theorem decode_from_buffer_cases:
  "(length buffer < 4 \<longrightarrow> decode_from_buffer loads buffer = (None, buffer))
   \<and> (4 \<le> length buffer \<and> from_bytes_big (take 4 buffer) \<le> MAX_MESSAGE_SIZE
        \<and> length buffer < 4 + from_bytes_big (take 4 buffer)
      \<longrightarrow> decode_from_buffer loads buffer = (None, buffer))
   \<and> (4 \<le> length buffer \<and> MAX_MESSAGE_SIZE < from_bytes_big (take 4 buffer)
      \<longrightarrow> decode_from_buffer loads buffer = (None, drop 4 buffer)
          \<and> buffer = take 4 buffer @ drop 4 buffer)
   \<and> (4 \<le> length buffer \<and> from_bytes_big (take 4 buffer) \<le> MAX_MESSAGE_SIZE
        \<and> 4 + from_bytes_big (take 4 buffer) \<le> length buffer
        \<and> loads (take (from_bytes_big (take 4 buffer)) (drop 4 buffer)) = Some message
      \<longrightarrow> decode_from_buffer loads buffer
            = (Some message, drop (4 + from_bytes_big (take 4 buffer)) buffer))"
  by (simp add: decode_from_buffer_def Let_def)

theorem decode_from_buffer_cases_witness:
  "decode_from_buffer raw_loads [0, 0, 1] = (None, [0, 0, 1])
   \<and> decode_from_buffer raw_loads [0, 0, 0, 3, 7] = (None, [0, 0, 0, 3, 7])
   \<and> decode_from_buffer raw_loads [0, 1, 0, 1, 7, 8] = (None, [7, 8])
   \<and> decode_from_buffer raw_loads [0, 0, 0, 2, 7, 8, 9] = (Some [7, 8], [9])"
proof -
  have b: "from_bytes_big [0, 0, 0, 3] = 3" "from_bytes_big [0, 1, 0, 1] = 65537"
    "from_bytes_big [0, 0, 0, 2] = 2"
    by (simp_all add: from_bytes_big_def)
  have 1: "decode_from_buffer raw_loads [0, 0, 1] = (None, [0, 0, 1])"
    using decode_from_buffer_cases [of "[0, 0, 1]" raw_loads] by simp
  have 2: "decode_from_buffer raw_loads [0, 0, 0, 3, 7] = (None, [0, 0, 0, 3, 7])"
    using decode_from_buffer_cases [of "[0, 0, 0, 3, 7]" raw_loads] b
    by (simp add: MAX_MESSAGE_SIZE_def)
  have 3: "decode_from_buffer raw_loads [0, 1, 0, 1, 7, 8] = (None, [7, 8])"
    using decode_from_buffer_cases [of "[0, 1, 0, 1, 7, 8]" raw_loads] b
    by (simp add: MAX_MESSAGE_SIZE_def)
  have 4: "decode_from_buffer raw_loads [0, 0, 0, 2, 7, 8, 9] = (Some [7, 8], [9])"
    using decode_from_buffer_cases [of "[0, 0, 0, 2, 7, 8, 9]" raw_loads "[7, 8]"] b
    by (simp add: MAX_MESSAGE_SIZE_def raw_loads_def)
  from 1 2 3 4 show ?thesis by simp
qed






section \<open>Properties of the simulation engine\<close>

subsection \<open>Dictionaries and loops\<close>

lemma map_of_modify:
  "map_of (map (\<lambda>(k, s). if k = pid then (k, f s) else (k, s)) xs) k
     = (if k = pid then map_option f (map_of xs k) else map_of xs k)"
  by (induction xs) auto

lemma snake_of_modify_snake:
  "map_of (snakes (modify_snake pid f game)) k
     = (if k = pid then map_option f (map_of (snakes game) k) else map_of (snakes game) k)"
  by (simp add: modify_snake_def map_of_modify)

lemma keys_modify_snake [simp]:
  "map fst (snakes (modify_snake pid f game)) = map fst (snakes game)"
  by (simp add: modify_snake_def comp_def case_prod_beta if_distrib [of fst] cong: if_cong)

lemma modify_snake_fields [simp]:
  "foods (modify_snake pid f game) = foods game"
  "weapons (modify_snake pid f game) = weapons game"
  "ghost_pickups (modify_snake pid f game) = ghost_pickups game"
  "bombs (modify_snake pid f game) = bombs game"
  "explosions (modify_snake pid f game) = explosions game"
  "mode (modify_snake pid f game) = mode game"
  "walls_enabled (modify_snake pid f game) = walls_enabled game"
  "width (modify_snake pid f game) = width game"
  "height (modify_snake pid f game) = height game"
  "state (modify_snake pid f game) = state game"
  by (simp_all add: modify_snake_def)

lemma bodies_nonempty_modify_snake:
  assumes "bodies_nonempty game" and "\<And>s. body s \<noteq> [] \<Longrightarrow> body (f s) \<noteq> []"
  shows "bodies_nonempty (modify_snake pid f game)"
  using assms by (fastforce simp: bodies_nonempty_def modify_snake_def list_all_iff split: if_splits)

lemma bodies_nonempty_cong:
  "snakes game' = snakes game \<Longrightarrow> bodies_nonempty game' = bodies_nonempty game"
  by (simp add: bodies_nonempty_def)

lemma for_each_invariant:
  assumes "P s" and "\<And>k s. P s \<Longrightarrow> P (snd (f k s))"
  shows "P (snd (for_each ks f s))"
  using assms(1)
proof (induction ks arbitrary: s)
  case Nil
  then show ?case by simp
next
  case (Cons k ks)
  from assms(2) [OF Cons.prems, of k] have step: "P (snd (f k s))" .
  show ?case
  proof (cases "f k s")
    case (Pair e s1)
    with step have "P s1" by simp
    with Pair Cons.IH [of s1] show ?thesis
      by (cases e) (simp_all add: then_do_def)
  qed
qed

subsection \<open>Spawning\<close>

lemma randint_range:
  assumes "randint a b r = Inr (x, r')"
  shows "a \<le> x \<and> x \<le> b \<and> r' = rng_next r"
proof -
  from assms have ab: "a \<le> b" and x: "x = a + int (r 0 mod nat (b - a + 1))"
    and r': "r' = rng_next r"
    by (auto simp: randint_def split: if_splits)
  from ab have "r 0 mod nat (b - a + 1) < nat (b - a + 1)" by simp
  with ab have "int (r 0 mod nat (b - a + 1)) \<le> b - a" by linarith
  with x r' show ?thesis by simp
qed

lemma spawn_attempts_result:
  assumes "spawn_attempts put n (game, r) = (e, (game', r'))"
  shows "game' = game
         \<or> (\<exists>x y. e = None \<and> game' = put (x, y) game \<and> \<not> is_position_occupied game x y
               \<and> 2 \<le> x \<and> x \<le> width game - 2 \<and> 2 \<le> y \<and> y \<le> height game - 2)"
  using assms
proof (induction n arbitrary: r)
  case 0
  then show ?case by simp
next
  case (Suc n)
  show ?case
  proof (cases "randint 2 (width game - 2) r")
    case (Inl a)
    with Suc.prems show ?thesis by simp
  next
    case (Inr xr)
    obtain x r1 where xr: "xr = (x, r1)" by (cases xr)
    from Inr xr have xb: "2 \<le> x \<and> x \<le> width game - 2"
      using randint_range by blast
    show ?thesis
    proof (cases "randint 2 (height game - 2) r1")
      case (Inl a)
      with Suc.prems Inr xr show ?thesis by simp
    next
      case (Inr yr)
      obtain y r2 where yr: "yr = (y, r2)" by (cases yr)
      from Inr yr have yb: "2 \<le> y \<and> y \<le> height game - 2"
        using randint_range by blast
      show ?thesis
      proof (cases "is_position_occupied game x y")
        case True
        with Suc.prems \<open>randint 2 (width game - 2) r = Inr xr\<close> xr Inr yr
        have "spawn_attempts put n (game, r2) = (e, (game', r'))" by simp
        from Suc.IH [OF this] show ?thesis .
      next
        case False
        with Suc.prems \<open>randint 2 (width game - 2) r = Inr xr\<close> xr Inr yr
        have "e = None \<and> game' = put (x, y) game" by simp
        with False xb yb show ?thesis by blast
      qed
    qed
  qed
qed

lemma snakes_spawn_attempts:
  assumes "\<And>c g. snakes (put c g) = snakes g"
  shows "snakes (fst (snd (spawn_attempts put n (game, r)))) = snakes game"
proof -
  obtain e game' r' where res: "spawn_attempts put n (game, r) = (e, (game', r'))"
    by (metis prod.exhaust)
  from spawn_attempts_result [OF res] assms have "snakes game' = snakes game" by auto
  with res show ?thesis by simp
qed

lemma snakes_spawn_food [simp]: "snakes (fst (snd (spawn_food (game, r)))) = snakes game"
  unfolding spawn_food_def by (rule snakes_spawn_attempts) simp

lemma snakes_spawn_weapon [simp]: "snakes (fst (snd (spawn_weapon (game, r)))) = snakes game"
  unfolding spawn_weapon_def by (rule snakes_spawn_attempts) simp

lemma snakes_spawn_ghost [simp]: "snakes (fst (snd (spawn_ghost (game, r)))) = snakes game"
  unfolding spawn_ghost_def by (rule snakes_spawn_attempts) simp

subsection \<open>Relating the snakes before and after a phase\<close>

lemma snakes_rel_same:
  assumes "snakes game' = snakes game" and "\<And>k s. R k s s"
  shows "snakes_rel R game game'"
  using assms by (simp add: snakes_rel_def list_all2_same case_prod_beta)

lemma snakes_rel_trans:
  assumes "snakes_rel R1 g g1" and "snakes_rel R2 g1 g2"
    and "\<And>k a b c. R1 k a b \<Longrightarrow> R2 k b c \<Longrightarrow> R3 k a c"
  shows "snakes_rel R3 g g2"
  using assms(1,2) unfolding snakes_rel_def
  by (rule list_all2_trans [rotated]) (use assms(3) in auto)

lemma snakes_rel_mono:
  assumes "snakes_rel R g g'" and "\<And>k s s'. R k s s' \<Longrightarrow> R' k s s'"
  shows "snakes_rel R' g g'"
  using assms unfolding snakes_rel_def
  by (auto elim!: list_all2_mono)

lemma snakes_rel_modify:
  "snakes_rel (\<lambda>k s s'. s' = (if k = pid then f s else s)) game (modify_snake pid f game)"
  by (simp add: snakes_rel_def modify_snake_def list_all2_map2 list_all2_same case_prod_beta)




lemma snakes_rel_bodies_nonempty:
  assumes "snakes_rel R g g'" and "bodies_nonempty g"
    and "\<And>k s s'. R k s s' \<Longrightarrow> body s \<noteq> [] \<Longrightarrow> body s' \<noteq> []"
  shows "bodies_nonempty g'"
proof -
  have "list_all2 (\<lambda>(k, s) (k', s'). k' = k \<and> R k s s') xs ys
          \<Longrightarrow> list_all (\<lambda>(pid, s). body s \<noteq> []) xs \<Longrightarrow> list_all (\<lambda>(pid, s). body s \<noteq> []) ys"
    for xs ys
    by (induction rule: list_all2_induct) (use assms(3) in auto)
  with assms(1,2) show ?thesis
    unfolding snakes_rel_def bodies_nonempty_def by blast
qed

lemma for_each_snakes_rel:
  assumes step: "\<And>k s. snakes_rel R (proj s) (proj (snd (f k s)))"
    and refl: "\<And>k s. R k s s"
    and trans: "\<And>k a b c. R k a b \<Longrightarrow> R k b c \<Longrightarrow> R k a c"
  shows "snakes_rel R (proj s) (proj (snd (for_each ks f s)))"
proof (induction ks arbitrary: s)
  case Nil
  show ?case by (simp add: snakes_rel_same refl)
next
  case (Cons k ks)
  show ?case
  proof (cases "f k s")
    case (Pair e s1)
    from step [of s k] Pair have 1: "snakes_rel R (proj s) (proj s1)" by simp
    show ?thesis
    proof (cases e)
      case None
      with Pair have "for_each (k # ks) f s = for_each ks f s1"
        by (simp add: then_do_def)
      with snakes_rel_trans [OF 1 Cons.IH [of s1]] trans show ?thesis by metis
    next
      case (Some a)
      with Pair 1 show ?thesis by (simp add: then_do_def)
    qed
  qed
qed

subsection \<open>Moving one snake\<close>

lemma modify_snake_update_fields [simp]:
  "modify_snake pid f (game\<lparr>foods := fs\<rparr>) = (modify_snake pid f game)\<lparr>foods := fs\<rparr>"
  "modify_snake pid f (game\<lparr>weapons := ws\<rparr>) = (modify_snake pid f game)\<lparr>weapons := ws\<rparr>"
  "modify_snake pid f (game\<lparr>ghost_pickups := gs\<rparr>) = (modify_snake pid f game)\<lparr>ghost_pickups := gs\<rparr>"
  by (simp_all add: modify_snake_def)

lemma modify_snake_twice [simp]:
  "modify_snake pid f (modify_snake pid h game) = modify_snake pid (\<lambda>s. f (h s)) game"
  by (simp add: modify_snake_def comp_def case_prod_beta if_distrib cong: if_cong)

lemma spawn_attempts_frame:
  assumes "\<And>c g. \<exists>fs. put c g = g\<lparr>foods := fs\<rparr>"
  shows "\<exists>fs. fst (snd (spawn_attempts put n (game, r))) = game\<lparr>foods := fs\<rparr>"
proof -
  obtain e game' r' where res: "spawn_attempts put n (game, r) = (e, (game', r'))"
    by (metis prod.exhaust)
  have "game = game\<lparr>foods := foods game\<rparr>" by simp
  with spawn_attempts_result [OF res] assms res show ?thesis
    by (metis fst_conv snd_conv)
qed

lemma spawn_food_frame: "\<exists>fs. fst (snd (spawn_food (game, r))) = game\<lparr>foods := fs\<rparr>"
  unfolding spawn_food_def by (rule spawn_attempts_frame) blast

lemma snakes_rel_update_fields [simp]:
  "snakes_rel R g (g'\<lparr>foods := fs\<rparr>) = snakes_rel R g g'"
  "snakes_rel R g (g'\<lparr>weapons := ws\<rparr>) = snakes_rel R g g'"
  "snakes_rel R g (g'\<lparr>ghost_pickups := gs\<rparr>) = snakes_rel R g g'"
  by (simp_all add: snakes_rel_def)

lemma snakes_rel_modifyI:
  assumes "\<And>k s. R k s (if k = pid then F s else s)"
  shows "snakes_rel R g (modify_snake pid F g)"
  by (rule snakes_rel_mono [OF snakes_rel_modify]) (use assms in auto)

lemma move_snake_rel:
  assumes s0: "map_of (snakes g) pid = Some s0" and b: "body s0 \<noteq> []"
  shows "snakes_rel (\<lambda>k s s'. if k = pid
            then moved_to (mode g) (next_head g s0) (next_head g s0 \<in> set (foods g)) s s'
            else s' = s)
          g (fst (snd (move_snake pid (g, r))))"
proof -
  obtain head rest where hb: "body s0 = head # rest"
    using b by (cases "body s0") auto
  define h where "h = next_head g s0"
  have h: "(if \<not> walls_enabled g then wrap_cell g (step_cell (direction s0) head)
            else step_cell (direction s0) head) = h"
    by (simp add: h_def next_head_def hb)
  have h': "walls_enabled g \<Longrightarrow> step_cell (direction s0) head = h"
       "\<not> walls_enabled g \<Longrightarrow> wrap_cell g (step_cell (direction s0) head) = h"
    using h by (simp_all split: if_splits)
  define base where
    "base = (modify_snake pid (\<lambda>s. s\<lparr>body := h # body s, score := score s + 10\<rparr>) g)
              \<lparr>foods := remove1 h (foods g)\<rparr>"
  obtain e2 g2 r2 where sp: "spawn_food (base, r) = (e2, (g2, r2))"
    by (metis prod.exhaust)
  from spawn_food_frame [of base r] sp obtain fs where g2: "g2 = base\<lparr>foods := fs\<rparr>"
    by auto
  show ?thesis
    unfolding h_def [symmetric]
    by (cases "walls_enabled g"; cases e2)
       (auto simp: move_snake_def s0 hb Let_def h' then_do_def sp [unfolded base_def] g2 base_def
          moved_to_def intro!: snakes_rel_modifyI)
qed


subsection \<open>The projectile phase\<close>

lemma length_pop_at: "i < length xs \<Longrightarrow> length (pop_at i xs) = length xs - 1"
  by (simp add: pop_at_def)

lemma remove_segments_length:
  "length (remove_segments budget hit segments) \<le> length segments
   \<and> (segments \<noteq> [] \<longrightarrow> remove_segments budget hit segments \<noteq> [])"
proof (induction budget arbitrary: segments)
  case 0
  show ?case by simp
next
  case (Suc budget)
  show ?case
  proof (cases "hit < length segments \<and> length segments > 1")
    case True
    then have len: "length (pop_at hit segments) = length segments - 1"
      by (simp add: length_pop_at)
    with True have ne: "pop_at hit segments \<noteq> []" by auto
    from Suc.IH [of "pop_at hit segments"] ne
    have "length (remove_segments budget hit (pop_at hit segments)) \<le> length (pop_at hit segments)"
      and "remove_segments budget hit (pop_at hit segments) \<noteq> []"
      by simp_all
    with len True show ?thesis by simp
  next
    case False
    then show ?thesis by auto
  qed
qed

lemma worn_refl: "worn s s"
  by (simp add: worn_def)

lemma worn_trans: "worn a b \<Longrightarrow> worn b c \<Longrightarrow> worn a c"
  by (auto simp: worn_def)

lemma worn_damage_snake: "worn s (damage_snake hit s)"
  using remove_segments_length [of BOMB_DAMAGE hit "body s"]
  by (simp add: worn_def damage_snake_def Let_def)

lemma snakes_create_explosion [simp]: "snakes (create_explosion x y game) = snakes game"
  by (simp add: create_explosion_def)

lemma snakes_rel_cong:
  "snakes a' = snakes a \<Longrightarrow> snakes b' = snakes b \<Longrightarrow> snakes_rel R a' b' = snakes_rel R a b"
  by (simp add: snakes_rel_def)

lemma bomb_steps_worn: "snakes_rel (\<lambda>k. worn) game (fst (bomb_steps n game b))"
proof (induction n arbitrary: b)
  case 0
  show ?case by (simp add: snakes_rel_same worn_refl)
next
  case (Suc n)
  have same: "snakes_rel (\<lambda>k. worn) game game"
    by (simp add: snakes_rel_same worn_refl)
  have expl: "snakes_rel (\<lambda>k. worn) game (create_explosion x y game)" for x y
    by (simp add: snakes_rel_same worn_refl)
  have hit: "snakes_rel (\<lambda>k. worn) game (modify_snake pid (damage_snake j) (create_explosion x y game))"
    for pid j x y
  proof -
    have "snakes_rel (\<lambda>k. worn) (create_explosion x y game)
            (modify_snake pid (damage_snake j) (create_explosion x y game))"
      by (rule snakes_rel_modifyI) (simp add: worn_refl worn_damage_snake)
    then show ?thesis
      by (simp add: snakes_rel_def modify_snake_def)
  qed
  define moved where "moved = step_cell (bomb_direction b) (bomb_x b, bomb_y b)"
  define b1 where "b1 = b\<lparr>bomb_x := fst moved, bomb_y := snd moved,
                         remaining_range := remaining_range b - 1\<rparr>"
  define b2 where "b2 = (if walls_enabled game then b1
                         else let w = wrap_cell game (bomb_x b1, bomb_y b1)
                              in b1\<lparr>bomb_x := fst w, bomb_y := snd w\<rparr>)"
  have unf: "bomb_steps (Suc n) game b =
     (if walls_enabled game \<and> bomb_out_of_bounds game b1
      then (create_explosion (bomb_x b1) (bomb_y b1) game, b1, True)
      else case first_hit (bomb_x b2, bomb_y b2) (snakes game) of
             Some (pid, j) \<Rightarrow>
               (modify_snake pid (damage_snake j)
                  (create_explosion (bomb_x b2) (bomb_y b2) game), b2, True)
           | None \<Rightarrow>
               if remaining_range b2 \<le> 0 then (game, b2, True)
               else bomb_steps n game b2)"
    unfolding b2_def b1_def moved_def by (simp only: bomb_steps.simps Let_def)
  show ?case
  proof (cases "walls_enabled game \<and> bomb_out_of_bounds game b1")
    case True
    with unf have "fst (bomb_steps (Suc n) game b) = create_explosion (bomb_x b1) (bomb_y b1) game"
      by simp
    with expl show ?thesis by simp
  next
    case False
    show ?thesis
    proof (cases "first_hit (bomb_x b2, bomb_y b2) (snakes game)")
      case (Some pj)
      obtain pid j where pj: "pj = (pid, j)" by (cases pj)
      from unf False Some pj
      have "fst (bomb_steps (Suc n) game b)
              = modify_snake pid (damage_snake j) (create_explosion (bomb_x b2) (bomb_y b2) game)"
        by simp
      with hit show ?thesis by simp
    next
      case None
      with unf False
      have "fst (bomb_steps (Suc n) game b)
              = (if remaining_range b2 \<le> 0 then game else fst (bomb_steps n game b2))"
        by simp
      with same Suc.IH [of b2] show ?thesis by simp
    qed
  qed
qed

lemma bombs_loop_worn: "snakes_rel (\<lambda>k. worn) game (snd (bombs_loop bs game))"
proof (induction bs arbitrary: game)
  case Nil
  show ?case by (simp add: snakes_rel_same worn_refl)
next
  case (Cons b bs)
  obtain game1 b' spent where st: "bomb_steps BOMB_SPEED game b = (game1, b', spent)"
    by (metis prod.exhaust)
  obtain kept game2 where lp: "bombs_loop bs game1 = (kept, game2)"
    by (metis prod.exhaust)
  from bomb_steps_worn [of game BOMB_SPEED b] st
  have 1: "snakes_rel (\<lambda>k. worn) game game1" by simp
  from Cons.IH [of game1] lp have 2: "snakes_rel (\<lambda>k. worn) game1 game2" by simp
  have "snakes_rel (\<lambda>k. worn) game game2"
    by (rule snakes_rel_trans [OF 1 2]) (rule worn_trans)
  with st lp show ?case by simp
qed

lemma update_bombs_worn: "snakes_rel (\<lambda>k. worn) game (update_bombs game)"
proof -
  obtain kept game1 where lp: "bombs_loop (bombs game) game = (kept, game1)"
    by (metis prod.exhaust)
  from bombs_loop_worn [of game "bombs game"] lp show ?thesis
    by (simp add: update_bombs_def snakes_rel_def)
qed

lemma snakes_update_explosions [simp]: "snakes (update_explosions game) = snakes game"
  by (simp add: update_explosions_def)

subsection \<open>The collision phase\<close>

lemma killed_refl: "killed s s"
  by (simp add: killed_def)

lemma killed_trans: "killed a b \<Longrightarrow> killed b c \<Longrightarrow> killed a c"
  by (auto simp: killed_def)

lemma killed_worn: "killed s s' \<Longrightarrow> worn s s'"
  by (auto simp: killed_def worn_def)

lemma check_collision_killed:
  "snakes_rel (\<lambda>k. killed) game (snd (check_collision pid game))"
proof -
  have same: "snakes_rel (\<lambda>k. killed) game game"
    by (simp add: snakes_rel_same killed_refl)
  have kill: "snakes_rel (\<lambda>k. killed) game (modify_snake pid (\<lambda>s. s\<lparr>alive := False\<rparr>) game)"
    by (rule snakes_rel_modifyI) (auto simp: killed_def)
  show ?thesis
  proof (cases "map_of (snakes game) pid")
    case None
    with same show ?thesis by (simp add: check_collision_def)
  next
    case (Some snake)
    show ?thesis
    proof (cases "body snake")
      case Nil
      with Some same show ?thesis by (simp add: check_collision_def)
    next
      case (Cons head segments)
      with Some same kill show ?thesis by (simp add: check_collision_def)
    qed
  qed
qed

lemma check_collisions_killed:
  "snakes_rel (\<lambda>k. killed) game (snd (check_collisions game))"
  unfolding check_collisions_def
proof (rule for_each_snakes_rel [where proj = "\<lambda>g. g" and R = "\<lambda>k. killed"])
  show "snakes_rel (\<lambda>k. killed) s (snd (check_collision k s))" for k s
    by (rule check_collision_killed)
  show "killed s s" for s
    by (rule killed_refl)
  show "killed a b \<Longrightarrow> killed b c \<Longrightarrow> killed a c" for a b c
    by (rule killed_trans)
qed

subsection \<open>The other phases of the tick\<close>

lemma snakes_rel_expire_invisibility:
  "snakes_rel (\<lambda>k s s'. s' = s \<or> s' = s\<lparr>is_invisible := False\<rparr>) game
     (expire_invisibility t game)"
  by (simp add: snakes_rel_def expire_invisibility_def list_all2_map2 list_all2_same
      case_prod_beta)

lemma snakes_spawn_pickup [simp]:
  "snakes (fst (snd (spawn_pickup t (game, r)))) = snakes game"
proof -
  obtain u r1 where u: "random_random r = (u, r1)" by (metis prod.exhaust)
  obtain e1 g1 r2 where w: "spawn_weapon (game, r1) = (e1, (g1, r2))" by (metis prod.exhaust)
  obtain e2 g2 r3 where g: "spawn_ghost (game, r1) = (e2, (g2, r3))" by (metis prod.exhaust)
  from snakes_spawn_weapon [of game r1] w have 1: "snakes g1 = snakes game" by simp
  from snakes_spawn_ghost [of game r1] g have 2: "snakes g2 = snakes game" by simp
  show ?thesis
    by (cases e1; cases e2)
       (simp_all add: spawn_pickup_def u w g 1 2 then_do_def split: prod.split)
qed

lemma snakes_foldl_winner:
  "snakes (foldl (\<lambda>g (pid, s). if alive s then g\<lparr>winner := player_name s\<rparr> else g) game xs)
     = snakes game"
  by (induction xs arbitrary: game) (simp_all add: case_prod_beta)

lemma snakes_check_winner [simp]: "snakes (check_winner game) = snakes game"
  by (simp add: check_winner_def Let_def snakes_foldl_winner)

subsection \<open>The whole tick\<close>

lemma moved_to_body_nonempty: "moved_to m h ate s s' \<Longrightarrow> body s \<noteq> [] \<Longrightarrow> body s' \<noteq> []"
  by (cases "body s") (auto simp: moved_to_def split: if_splits)

lemma move_if_alive_keeps:
  "snakes_rel (\<lambda>k s s'. body s \<noteq> [] \<longrightarrow> body s' \<noteq> []) g (fst (snd (move_if_alive pid (g, r))))"
proof -
  have same: "snakes_rel (\<lambda>k s s'. body s \<noteq> [] \<longrightarrow> body s' \<noteq> []) g g"
    by (simp add: snakes_rel_same)
  show ?thesis
  proof (cases "map_of (snakes g) pid")
    case None
    with same show ?thesis by (simp add: move_if_alive_def)
  next
    case (Some s0)
    show ?thesis
    proof (cases "alive s0 \<and> body s0 \<noteq> []")
      case True
      with Some have eq: "move_if_alive pid (g, r) = move_snake pid (g, r)"
        by (simp add: move_if_alive_def)
      from True have b: "body s0 \<noteq> []" by simp
      show ?thesis
        unfolding eq
        by (rule snakes_rel_mono [OF move_snake_rel [OF Some b]])
           (auto dest: moved_to_body_nonempty split: if_splits)
    next
      case False
      with Some same show ?thesis
        by (cases "alive s0") (simp_all add: move_if_alive_def move_snake_def)
    qed
  qed
qed

lemma move_snakes_keeps:
  "snakes_rel (\<lambda>k s s'. body s \<noteq> [] \<longrightarrow> body s' \<noteq> []) g (fst (snd (move_snakes (g, r))))"
proof -
  have "snakes_rel (\<lambda>k s s'. body s \<noteq> [] \<longrightarrow> body s' \<noteq> []) (fst (g, r))
          (fst (snd (for_each ks move_if_alive (g, r))))" for ks
  proof (rule for_each_snakes_rel [where proj = fst
        and R = "\<lambda>k s s'. body s \<noteq> [] \<longrightarrow> body s' \<noteq> []"])
    show "snakes_rel (\<lambda>k s s'. body s \<noteq> [] \<longrightarrow> body s' \<noteq> []) (fst s)
            (fst (snd (move_if_alive k s)))" for k s
      using move_if_alive_keeps [of "fst s" k "snd s"] by simp
  qed simp_all
  then show ?thesis by (simp add: move_snakes_def)
qed

text \<open>The game in which a tick ends is one of four: the one left by the move phase when it
  raised, the one left by the collision phase when that raised, the one left by the spawn
  when that raised, and otherwise the one with the winner checked and the tick counted.\<close>

lemma update_game_snakes:
  assumes mv: "move_snakes (expire_invisibility t g, r) = (e1, (g1, r1))"
    and cc: "check_collisions (update_explosions (update_bombs g1)) = (e3, g3)"
  shows "snakes (fst (snd (update_game t (g, r)))) = (if e1 = None then snakes g3 else snakes g1)"
proof -
  obtain e4 g4 r4 where sp: "spawn_pickup t (g3, r1) = (e4, (g4, r4))"
    by (metis prod.exhaust)
  from snakes_spawn_pickup [of t g3 r1] sp have s4: "snakes g4 = snakes g3" by simp
  show ?thesis
    by (cases e1; cases e3; cases e4)
       (simp_all add: update_game_def then_do_def mv cc sp s4 Let_def)
qed

subsection \<open>The move phase, snake by snake\<close>






subsection \<open>One tick of the concrete game\<close>

lemmas demo_defs = demo_game_def demo_snake_def demo_gunner_def demo_bomb_def GameData_default_def

lemma randint_rng_zero: "a \<le> b \<Longrightarrow> randint a b rng_zero = Inr (a, rng_zero)"
  by (simp add: randint_def rng_zero_def rng_next_def)

lemma spawn_attempts_rng_zero:
  assumes "4 \<le> width game" and "4 \<le> height game" and "\<not> is_position_occupied game 2 2"
  shows "spawn_attempts put (Suc n) (game, rng_zero) = (None, (put (2, 2) game, rng_zero))"
  using assms by (simp add: randint_rng_zero)

lemma spawn_food_rng_zero:
  assumes "4 \<le> width game" and "4 \<le> height game" and "\<not> is_position_occupied game 2 2"
  shows "spawn_food (game, rng_zero) = (None, (game\<lparr>foods := foods game @ [(2, 2)]\<rparr>, rng_zero))"
proof -
  have e: "spawn_food = spawn_attempts (\<lambda>c game. game\<lparr>foods := foods game @ [c]\<rparr>) (Suc 99)"
    by (simp add: spawn_food_def)
  show ?thesis
    unfolding e
    by (fact spawn_attempts_rng_zero
          [OF assms, where n = 99 and put = "\<lambda>c game. game\<lparr>foods := foods game @ [c]\<rparr>"])
qed

lemma demo_expire: "expire_invisibility 0 (demo_game m) = demo_game m"
  by (simp add: expire_invisibility_def demo_game_def demo_snake_def demo_gunner_def)





lemma demo_classic_move:
  "move_snakes (demo_game ''classic'', rng_zero)
   = (None,
      ((demo_game ''classic'')
         \<lparr>snakes := [(''temp_A'', demo_snake\<lparr>body := [(11, 10), (10, 10), (9, 10), (8, 10), (7, 10), (6, 10)]\<rparr>),
                     (''temp_B'', demo_gunner\<lparr>body := (9, 14) # body demo_gunner, score := 10\<rparr>)],
          foods := [(2, 2)]\<rparr>, rng_zero))"
  by (simp add: move_snakes_def move_if_alive_def move_snake_def demo_defs step_cell_def
      modify_snake_def then_do_def spawn_food_rng_zero is_position_occupied_def)

lemma demo_classic_bombs:
  "update_bombs
     ((demo_game ''classic'')
         \<lparr>snakes := [(''temp_A'', demo_snake\<lparr>body := [(11, 10), (10, 10), (9, 10), (8, 10), (7, 10), (6, 10)]\<rparr>),
                     (''temp_B'', demo_gunner\<lparr>body := (9, 14) # body demo_gunner, score := 10\<rparr>)],
          foods := [(2, 2)]\<rparr>)
   = (demo_game ''classic'')
         \<lparr>snakes := [(''temp_A'', demo_snake\<lparr>body := [(11, 10), (10, 10)]\<rparr>),
                     (''temp_B'', demo_gunner\<lparr>body := (9, 14) # body demo_gunner, score := 10\<rparr>)],
          foods := [(2, 2)], bombs := [],
          explosions := [\<lparr>exp_x = 9, exp_y = 10, radius = 3, ttl = 5\<rparr>]\<rparr>"
  by (simp add: update_bombs_def BOMB_SPEED_def numeral_3_eq_3 demo_defs step_cell_def
      bomb_out_of_bounds_def create_explosion_def modify_snake_def Let_def damage_snake_def
      BOMB_DAMAGE_def numeral_eq_Suc pop_at_def)

lemma demo_classic_collisions:
  "check_collisions
     (update_explosions
        ((demo_game ''classic'')
         \<lparr>snakes := [(''temp_A'', demo_snake\<lparr>body := [(11, 10), (10, 10)]\<rparr>),
                     (''temp_B'', demo_gunner\<lparr>body := (9, 14) # body demo_gunner, score := 10\<rparr>)],
          foods := [(2, 2)], bombs := [],
          explosions := [\<lparr>exp_x = 9, exp_y = 10, radius = 3, ttl = 5\<rparr>]\<rparr>))
   = (None,
      (demo_game ''classic'')
         \<lparr>snakes := [(''temp_A'', demo_snake\<lparr>body := [(11, 10), (10, 10)]\<rparr>),
                     (''temp_B'', demo_gunner\<lparr>body := (9, 14) # body demo_gunner, score := 10\<rparr>)],
          foods := [(2, 2)], bombs := [],
          explosions := [\<lparr>exp_x = 9, exp_y = 10, radius = 3, ttl = 4\<rparr>]\<rparr>)"
  by (simp add: check_collisions_def check_collision_def update_explosions_def demo_defs
      head_out_of_bounds_def hits_other_def then_do_def)

lemma demo_classic_tick:
  "update_game 0 (demo_game ''classic'', rng_zero)
   = (None,
      ((demo_game ''classic'')
         \<lparr>snakes := [(''temp_A'', demo_snake\<lparr>body := [(11, 10), (10, 10)]\<rparr>),
                     (''temp_B'', demo_gunner\<lparr>body := (9, 14) # body demo_gunner, score := 10\<rparr>)],
          foods := [(2, 2)], bombs := [],
          explosions := [\<lparr>exp_x = 9, exp_y = 10, radius = 3, ttl = 4\<rparr>],
          tick := 1\<rparr>, rng_zero))"
  by (simp add: update_game_def demo_expire demo_classic_move demo_classic_bombs
      demo_classic_collisions then_do_def)
     (simp add: spawn_pickup_def check_winner_def demo_defs)

subsection \<open>Bodies never become empty\<close>

lemma move_snake_keeps:
  "snakes_rel (\<lambda>k s s'. body s \<noteq> [] \<longrightarrow> body s' \<noteq> []) g (fst (snd (move_snake pid (g, r))))"
proof -
  have same: "snakes_rel (\<lambda>k s s'. body s \<noteq> [] \<longrightarrow> body s' \<noteq> []) g g"
    by (simp add: snakes_rel_same)
  show ?thesis
  proof (cases "map_of (snakes g) pid")
    case None
    with same show ?thesis by (simp add: move_snake_def)
  next
    case (Some s0)
    show ?thesis
    proof (cases "body s0 = []")
      case True
      with Some same show ?thesis by (simp add: move_snake_def)
    next
      case False
      show ?thesis
        by (rule snakes_rel_mono [OF move_snake_rel [OF Some False]])
           (auto dest: moved_to_body_nonempty split: if_splits)
    qed
  qed
qed

lemma update_game_keeps:
  "snakes_rel (\<lambda>k s s'. body s \<noteq> [] \<longrightarrow> body s' \<noteq> []) g (fst (snd (update_game t (g, r))))"
proof -
  obtain e1 g1 r1 where mv: "move_snakes (expire_invisibility t g, r) = (e1, (g1, r1))"
    by (metis prod.exhaust)
  obtain e3 g3 where cc: "check_collisions (update_explosions (update_bombs g1)) = (e3, g3)"
    by (metis prod.exhaust)
  have 0: "snakes_rel (\<lambda>k s s'. body s \<noteq> [] \<longrightarrow> body s' \<noteq> []) g (expire_invisibility t g)"
    by (rule snakes_rel_mono [OF snakes_rel_expire_invisibility]) auto
  from move_snakes_keeps [of "expire_invisibility t g" r] mv
  have 1: "snakes_rel (\<lambda>k s s'. body s \<noteq> [] \<longrightarrow> body s' \<noteq> []) (expire_invisibility t g) g1"
    by simp
  have 2: "snakes_rel (\<lambda>k s s'. body s \<noteq> [] \<longrightarrow> body s' \<noteq> []) g1 (update_bombs g1)"
    by (rule snakes_rel_mono [OF update_bombs_worn]) (simp add: worn_def)
  from check_collisions_killed [of "update_explosions (update_bombs g1)"] cc
  have "snakes_rel (\<lambda>k. killed) (update_bombs g1) g3"
    by (simp add: snakes_rel_def)
  then have 3: "snakes_rel (\<lambda>k s s'. body s \<noteq> [] \<longrightarrow> body s' \<noteq> []) (update_bombs g1) g3"
    by (rule snakes_rel_mono) (auto simp: killed_def)
  have g1: "snakes_rel (\<lambda>k s s'. body s \<noteq> [] \<longrightarrow> body s' \<noteq> []) g g1"
    by (rule snakes_rel_trans [OF 0 1]) simp
  have "snakes_rel (\<lambda>k s s'. body s \<noteq> [] \<longrightarrow> body s' \<noteq> []) g1 g3"
    by (rule snakes_rel_trans [OF 2 3]) simp
  with g1 have g3: "snakes_rel (\<lambda>k s s'. body s \<noteq> [] \<longrightarrow> body s' \<noteq> []) g g3"
    by (rule snakes_rel_trans) simp
  from update_game_snakes [OF mv cc] g1 g3 show ?thesis
    by (cases e1) (simp_all add: snakes_rel_def)
qed

lemma list_all_dict_set: "list_all P d \<Longrightarrow> P (k, v) \<Longrightarrow> list_all P (dict_set k v d)"
  by (induction d) auto

lemma add_player_to_game_keeps:
  assumes "bodies_nonempty g"
  shows "bodies_nonempty (fst (snd (add_player_to_game pid pname (g, r))))"
proof -
  have ib: "initial_body d start \<noteq> []" for d start
    by (cases d; cases start) (simp_all add: initial_body_def)
  have sp: "bodies_nonempty (fst (snd (spawn_food (game, r')))) = bodies_nonempty game" for game r'
    by (rule bodies_nonempty_cong) simp
  from assms have nx: "bodies_nonempty (g\<lparr>next_player_id := n\<rparr>)" for n
    by (simp add: bodies_nonempty_def)
  from assms have ds: "bodies_nonempty (g\<lparr>next_player_id := n, snakes := dict_set pid sd (snakes g)\<rparr>)"
    if "body sd \<noteq> []" for n sd
    using that by (simp add: bodies_nonempty_def list_all_dict_set)
  obtain e2 start r2 where fs:
    "find_start 100 (g\<lparr>next_player_id := Suc (next_player_id g)\<rparr>)
       ((0, 0), rng_next r) = (e2, (start, r2))"
    by (metis prod.exhaust)
  show ?thesis
    by (cases e2)
       (simp_all add: add_player_to_game_def Let_def random_choice_def fs sp nx ds ib)
qed

text \<open>
  \<^bold>\<open>C10.\<close> Every body has at least one segment at the end of a tick, for the living and the
  dead, whenever that was so at its start (and joining the game keeps it so: a new snake
  has three segments). This holds in whatever state the tick ends, also when one of its
  phases raises. Projectile damage leaves a non-empty body non-empty, and marks the snake
  dead when fewer than two segments are left; one call of \<^verbatim>\<open>_move_snake\<close> keeps all bodies
  non-empty, since it inserts the new head before it removes the tail.
\<close>

theorem update_game_bodies_nonempty:
  "(bodies_nonempty g \<longrightarrow> bodies_nonempty (fst (snd (update_game t (g, r)))))
   \<and> (body s \<noteq> [] \<longrightarrow>
        body (damage_snake hit s) \<noteq> []
        \<and> (length (body (damage_snake hit s)) < 2 \<longrightarrow> \<not> alive (damage_snake hit s)))
   \<and> (bodies_nonempty g \<longrightarrow> bodies_nonempty (fst (snd (move_snake pid (g, r)))))
   \<and> (bodies_nonempty g \<longrightarrow>
        bodies_nonempty (fst (snd (add_player_to_game new_id pname (g, r)))))"
proof (intro conjI impI)
  assume "bodies_nonempty g"
  with update_game_keeps [of g t r] show "bodies_nonempty (fst (snd (update_game t (g, r))))"
    by (rule snakes_rel_bodies_nonempty) simp
next
  assume "body s \<noteq> []"
  with worn_damage_snake [of s hit] show "body (damage_snake hit s) \<noteq> []"
    by (simp add: worn_def)
next
  assume "length (body (damage_snake hit s)) < 2"
  then show "\<not> alive (damage_snake hit s)"
    by (simp add: damage_snake_def Let_def split: if_splits)
next
  assume "bodies_nonempty g"
  with move_snake_keeps [of g pid r] show "bodies_nonempty (fst (snd (move_snake pid (g, r))))"
    by (rule snakes_rel_bodies_nonempty) simp
next
  assume "bodies_nonempty g"
  then show "bodies_nonempty (fst (snd (add_player_to_game new_id pname (g, r))))"
    by (rule add_player_to_game_keeps)
qed

theorem update_game_bodies_nonempty_witness:
  "bodies_nonempty (demo_game ''classic'')
   \<and> update_game 0 (demo_game ''classic'', rng_zero)
       = (None,
          ((demo_game ''classic'')
             \<lparr>snakes := [(''temp_A'', demo_snake\<lparr>body := [(11, 10), (10, 10)]\<rparr>),
                         (''temp_B'', demo_gunner\<lparr>body := (9, 14) # body demo_gunner, score := 10\<rparr>)],
              foods := [(2, 2)], bombs := [],
              explosions := [\<lparr>exp_x = 9, exp_y = 10, radius = 3, ttl = 4\<rparr>],
              tick := 1\<rparr>, rng_zero))
   \<and> bodies_nonempty (fst (snd (update_game 0 (demo_game ''classic'', rng_zero))))
   \<and> body demo_snake \<noteq> []
   \<and> body (damage_snake 1 demo_snake) \<noteq> []
   \<and> bodies_nonempty (fst (snd (move_snake ''temp_A'' (demo_game ''classic'', rng_zero))))
   \<and> bodies_nonempty
       (fst (snd (add_player_to_game ''temp_C'' ''Cy'' (demo_game ''classic'', rng_zero))))"
proof -
  have b: "bodies_nonempty (demo_game ''classic'')"
    by (simp add: bodies_nonempty_def demo_game_def demo_snake_def demo_gunner_def)
  have s: "body demo_snake \<noteq> []"
    by (simp add: demo_snake_def)
  from update_game_bodies_nonempty
    [where g = "demo_game ''classic''" and t = 0 and r = rng_zero and s = demo_snake and hit = 1
       and pid = "''temp_A''" and new_id = "''temp_C''" and pname = "''Cy''"] b s
    demo_classic_tick
  show ?thesis by simp
qed

subsection \<open>Body length across a tick\<close>








end
